theory Spec2Isabelle
  imports Main "HOL-Library.Word"
begin

section \<open>PlaylistLoader: loading, resolving and saving playlists\<close>

text \<open>
  A shallow embedding of \<^verbatim>\<open>src/libraries/playlist/PlaylistLoader.ts\<close>.
  Each method of the class \<^verbatim>\<open>PlaylistLoader\<close> is a HOL function of the same name.
  What the class imports from elsewhere (the blister.js serializer, the BeatSaver
  catalog, Node's \<^verbatim>\<open>path\<close> module, \<^verbatim>\<open>JSON.parse\<close>) is a field of the record
  \<open>Env\<close>; the file system and the progress object are states passed in and returned.
  A JavaScript exception is the left summand of a result \<open>exn + 'a\<close>.
\<close>

subsection \<open>Buffers, hexadecimal text and numbers\<close>

type_synonym Buffer = "8 word list"

datatype exn = Thrown string

text \<open>One lowercase hexadecimal digit, for a value below 16.\<close>

definition hex_digit :: "nat \<Rightarrow> char" where
  "hex_digit n = ''0123456789abcdef'' ! n"

text \<open>\<^verbatim>\<open>Number.prototype.toString(16)\<close> on a non-negative integer.\<close>

fun hex_of_nat :: "nat \<Rightarrow> string" where
  "hex_of_nat n = (if n < 16 then [hex_digit n] else hex_of_nat (n div 16) @ [hex_digit (n mod 16)])"

declare hex_of_nat.simps [simp del]

text \<open>
  \<^verbatim>\<open>key.toString(16)\<close>. The key is a JavaScript number holding an integer; a negative
  one is rendered with a leading minus sign.
\<close>

definition number_toString16 :: "int \<Rightarrow> string" where
  "number_toString16 k = (if k < 0 then CHR ''-'' # hex_of_nat (nat (- k)) else hex_of_nat (nat k))"

text \<open>\<^verbatim>\<open>buffer.toString('hex')\<close>: two lowercase digits for each byte.\<close>

fun buffer_toString_hex :: "Buffer \<Rightarrow> string" where
  "buffer_toString_hex [] = []"
| "buffer_toString_hex (b # bs) =
     hex_digit (unat b div 16) # hex_digit (unat b mod 16) # buffer_toString_hex bs"

text \<open>The value of one hexadecimal digit, of either case; \<open>None\<close> for any other character.\<close>

definition unhex :: "char \<Rightarrow> nat option" where
  "unhex c = (let n = (of_char c :: nat) in
     if 48 \<le> n \<and> n \<le> 57 then Some (n - 48)
     else if 97 \<le> n \<and> n \<le> 102 then Some (n - 87)
     else if 65 \<le> n \<and> n \<le> 70 then Some (n - 55)
     else None)"

text \<open>
  \<^verbatim>\<open>Buffer.from(s, 'hex')\<close>: Node (from version 8 on) decodes the text pair by pair and
  stops, without an error, at the first pair that is not two hexadecimal digits; a
  trailing single character is dropped.
\<close>

fun Buffer_from_hex :: "string \<Rightarrow> Buffer" where
  "Buffer_from_hex (a # b # rest) =
     (case unhex a of
        None \<Rightarrow> []
      | Some h \<Rightarrow> (case unhex b of
                    None \<Rightarrow> []
                  | Some l \<Rightarrow> of_nat (16 * h + l) # Buffer_from_hex rest))"
| "Buffer_from_hex _ = []"

text \<open>
  \<^verbatim>\<open>String.prototype.toLowerCase\<close> on the characters the model has: the letters A to Z
  are mapped to a to z, every other character is unchanged.
\<close>

definition char_toLowerCase :: "char \<Rightarrow> char" where
  "char_toLowerCase c = (let n = (of_char c :: nat) in
     if 65 \<le> n \<and> n \<le> 90 then char_of (n + 32) else c)"

definition toLowerCase :: "string \<Rightarrow> string" where
  "toLowerCase s = map char_toLowerCase s"

subsection \<open>The canonical playlist of blister.js\<close>

text \<open>
  \<^verbatim>\<open>IBeatmap\<close> is a union discriminated by its \<^verbatim>\<open>type\<close> field, each tag with its own
  payload. \<open>UnknownBeatmap\<close> stands for an object whose tag is none of the four of
  \<^verbatim>\<open>BeatmapType\<close>; it carries the tag's number.
\<close>

datatype BeatmapType = Key | Hash | Zip | LevelID | UnknownType nat

datatype BeatmapPayload =
    KeyBeatmap int
  | HashBeatmap Buffer
  | ZipBeatmap Buffer
  | LevelIDBeatmap string
  | UnknownBeatmap nat

fun beatmap_type :: "BeatmapPayload \<Rightarrow> BeatmapType" where
  "beatmap_type (KeyBeatmap _) = Key"
| "beatmap_type (HashBeatmap _) = Hash"
| "beatmap_type (ZipBeatmap _) = Zip"
| "beatmap_type (LevelIDBeatmap _) = LevelID"
| "beatmap_type (UnknownBeatmap t) = UnknownType t"

record IBeatmap =
  dateAdded :: int
  payload :: BeatmapPayload

record IPlaylist =
  title :: string
  author :: string
  description :: string
  cover :: Buffer
  maps :: "IBeatmap list"

subsection \<open>The loaded playlist\<close>

text \<open>
  Modelled from the spec: the catalog's entry type (\<^verbatim>\<open>BeatsaverBeatmap\<close>) is not in the
  source at hand. The loader reads its \<^verbatim>\<open>hash\<close> field only; \<open>details\<close> stands for
  everything else an entry holds.
\<close>

record BeatsaverBeatmap =
  hash :: string
  details :: string

text \<open>
  Modelled from the spec: \<^verbatim>\<open>PlaylistLocal.ts\<close> is not in the source at hand. The names
  of the three errors are those the loader assigns.
\<close>

datatype PlaylistMapImportError =
    BeatmapTypeZipNotSupported
  | BeatmapTypeLevelIdNotSupported
  | BeatmapTypeUnknown

text \<open>
  Modelled from the spec: the field \<^verbatim>\<open>online\<close> of a loaded map has three states: never
  assigned (\<^verbatim>\<open>undefined\<close>), looked up and not found (\<^verbatim>\<open>null\<close>), or the catalog's
  entry.
\<close>

datatype OnlineField = Undefined | Null | Online BeatsaverBeatmap

text \<open>
  Modelled from the spec: the interfaces \<^verbatim>\<open>PlaylistLocalMap\<close> and \<^verbatim>\<open>PlaylistLocal\<close> of
  \<^verbatim>\<open>PlaylistLocal.ts\<close>, with the fields the loader reads and assigns. An error that was
  never assigned is \<open>None\<close>, and so is a path that was never assigned.
\<close>

record PlaylistLocalMap =
  dateAdded :: int
  online :: OnlineField
  error :: "PlaylistMapImportError option"

record PlaylistLocal =
  title :: string
  author :: string
  description :: string
  cover :: Buffer
  path :: "string option"
  maps :: "PlaylistLocalMap list"

subsection \<open>Saving direction: \<^verbatim>\<open>ConvertToPlaylistBlister\<close>\<close>

text \<open>\<^verbatim>\<open>map.online?.hash || ''\<close>: the empty string for \<^verbatim>\<open>null\<close> and for an empty hash.\<close>

fun online_hash_or_empty :: "OnlineField \<Rightarrow> string" where
  "online_hash_or_empty (Online b) = hash b"
| "online_hash_or_empty _ = []"

text \<open>The callback of \<^verbatim>\<open>playlist.maps.map\<close>; \<open>None\<close> is its \<^verbatim>\<open>return undefined\<close>.\<close>

definition blister_map_callback :: "PlaylistLocalMap \<Rightarrow> IBeatmap option" where
  "blister_map_callback m =
     (if online m = Undefined then None
      else (let h = online_hash_or_empty (online m) in
        Some \<lparr>IBeatmap.dateAdded = PlaylistLocalMap.dateAdded m,
              payload = HashBeatmap (Buffer_from_hex (toLowerCase h))\<rparr>))"

text \<open>\<^verbatim>\<open>.filter(map => map !== undefined)\<close>, then the cast to \<^verbatim>\<open>IBeatmap[]\<close>.\<close>

fun filter_defined :: "'a option list \<Rightarrow> 'a list" where
  "filter_defined [] = []"
| "filter_defined (None # xs) = filter_defined xs"
| "filter_defined (Some x # xs) = x # filter_defined xs"

definition ConvertToPlaylistBlister :: "PlaylistLocal \<Rightarrow> IPlaylist" where
  "ConvertToPlaylistBlister playlist =
     \<lparr>IPlaylist.title = PlaylistLocal.title playlist,
      IPlaylist.author = PlaylistLocal.author playlist,
      IPlaylist.description = PlaylistLocal.description playlist,
      IPlaylist.cover = PlaylistLocal.cover playlist,
      IPlaylist.maps = filter_defined (map blister_map_callback (PlaylistLocal.maps playlist))\<rparr>"

subsection \<open>What the loader imports\<close>

text \<open>
  Modelled from the spec: \<^verbatim>\<open>BeatSaverAPI\<close> is not in the source at hand. Its two
  lookups, \<open>getBeatmapByKey\<close> and \<open>getBeatmapByHash\<close>, take the hexadecimal text and
  answer with an entry or with nothing; a lookup that fails answers with nothing.

  The other fields are the functions of blister.js (\<^verbatim>\<open>validateMagicNumber\<close>,
  \<^verbatim>\<open>deserialize\<close>, \<^verbatim>\<open>serialize\<close>, \<^verbatim>\<open>convertLegacyPlaylist\<close>), of the JavaScript runtime
  (\<^verbatim>\<open>Buffer.toString\<close>, \<^verbatim>\<open>JSON.parse\<close>) and of Node's \<^verbatim>\<open>path\<close> module
  (\<^verbatim>\<open>path.parse(p).name\<close>, \<^verbatim>\<open>path.parse(p).dir\<close>, \<^verbatim>\<open>path.join\<close>), taken as
  parameters. Each one that can throw returns a sum. \<open>'j\<close> is the type of a parsed JSON
  value.
\<close>

record 'j Env =
  validateMagicNumber :: "Buffer \<Rightarrow> exn + unit"
  deserialize :: "Buffer \<Rightarrow> exn + IPlaylist"
  serialize :: "IPlaylist \<Rightarrow> exn + Buffer"
  Buffer_toString :: "Buffer \<Rightarrow> string"
  JSON_parse :: "string \<Rightarrow> exn + 'j"
  convertLegacyPlaylist :: "'j \<Rightarrow> exn + IPlaylist"
  getBeatmapByKey :: "string \<Rightarrow> BeatsaverBeatmap option"
  getBeatmapByHash :: "string \<Rightarrow> BeatsaverBeatmap option"
  path_parse_name :: "string \<Rightarrow> string"
  path_parse_dir :: "string \<Rightarrow> string"
  path_join :: "string \<Rightarrow> string \<Rightarrow> string"

text \<open>
  The file system of \<^verbatim>\<open>fs-extra\<close>, as far as the loader uses it: whole files by path.
  \<open>denied p\<close> says that reading, writing and removing \<open>p\<close> fail (a directory, missing
  rights). A write either stores the whole buffer or changes nothing.
\<close>

record FileSystem =
  files :: "string \<rightharpoonup> Buffer"
  denied :: "string \<Rightarrow> bool"

definition pathExists :: "FileSystem \<Rightarrow> string \<Rightarrow> bool" where
  "pathExists fs p = (files fs p \<noteq> None)"

definition readFile :: "FileSystem \<Rightarrow> string \<Rightarrow> exn + Buffer" where
  "readFile fs p =
     (case files fs p of
        None \<Rightarrow> Inl (Thrown ''ENOENT'')
      | Some b \<Rightarrow> if denied fs p then Inl (Thrown ''EACCES'') else Inr b)"

definition writeFile :: "FileSystem \<Rightarrow> string \<Rightarrow> Buffer \<Rightarrow> exn + FileSystem" where
  "writeFile fs p b =
     (if denied fs p then Inl (Thrown ''EACCES'')
      else Inr (fs\<lparr>files := (files fs)(p \<mapsto> b)\<rparr>))"

definition unlink :: "FileSystem \<Rightarrow> string \<Rightarrow> exn + FileSystem" where
  "unlink fs p =
     (case files fs p of
        None \<Rightarrow> Inl (Thrown ''ENOENT'')
      | Some b \<Rightarrow> if denied fs p then Inl (Thrown ''EACCES'')
                  else Inr (fs\<lparr>files := (files fs)(p := None)\<rparr>))"

text \<open>
  Modelled from the spec: \<^verbatim>\<open>Progress.ts\<close> is not in the source at hand. The progress
  object has a status and two counters; a new one has not started and counts nothing.
  The field \<^verbatim>\<open>done\<close> is written \<open>done'\<close>.
\<close>

datatype ProgressStatus = NotStarted | Running | Completed

record Progress =
  status :: ProgressStatus
  total :: int
  done' :: int

text \<open>
  Modelled from the spec: \<^verbatim>\<open>new Progress()\<close>, the default of the parameter
  \<^verbatim>\<open>progress\<close>.
\<close>

definition new_Progress :: Progress where
  "new_Progress = \<lparr>status = NotStarted, total = 0, done' = 0\<rparr>"

definition PLAYLIST_EXTENSION_NAME :: string where
  "PLAYLIST_EXTENSION_NAME = ''blist''"

subsection \<open>\<^verbatim>\<open>IsOldFormat\<close>\<close>

definition IsOldFormat :: "'j Env \<Rightarrow> Buffer \<Rightarrow> exn + bool" where
  "IsOldFormat env buffer =
     (case validateMagicNumber env buffer of
        Inr _ \<Rightarrow> Inr False
      | Inl e \<Rightarrow> Inr True)"

subsection \<open>Loading direction: \<^verbatim>\<open>ConvertToPlaylistLocal\<close>\<close>

text \<open>\<^verbatim>\<open>x || null\<close> on the answer of a lookup.\<close>

fun or_null :: "BeatsaverBeatmap option \<Rightarrow> OnlineField" where
  "or_null None = Null"
| "or_null (Some b) = Online b"

text \<open>The object \<^verbatim>\<open>map\<close> that the callback builds: the \<^verbatim>\<open>switch\<close> on the type.\<close>

definition convert_map :: "'j Env \<Rightarrow> IBeatmap \<Rightarrow> PlaylistLocalMap" where
  "convert_map env mapToConvert =
     (let map = \<lparr>dateAdded = IBeatmap.dateAdded mapToConvert, online = Undefined, error = None\<rparr> in
      case payload mapToConvert of
        KeyBeatmap key \<Rightarrow> map\<lparr>online := or_null (getBeatmapByKey env (number_toString16 key))\<rparr>
      | HashBeatmap h \<Rightarrow> map\<lparr>online := or_null (getBeatmapByHash env (buffer_toString_hex h))\<rparr>
      | ZipBeatmap _ \<Rightarrow> map\<lparr>error := Some BeatmapTypeZipNotSupported\<rparr>
      | LevelIDBeatmap _ \<Rightarrow> map\<lparr>error := Some BeatmapTypeLevelIdNotSupported\<rparr>
      | UnknownBeatmap _ \<Rightarrow> map\<lparr>error := Some BeatmapTypeUnknown\<rparr>)"

text \<open>The whole callback: the map, and \<^verbatim>\<open>progress.done += 1\<close>.\<close>

definition local_map_callback ::
  "'j Env \<Rightarrow> IBeatmap \<Rightarrow> Progress \<Rightarrow> PlaylistLocalMap \<times> Progress" where
  "local_map_callback env mapToConvert progress =
     (convert_map env mapToConvert, progress\<lparr>done' := done' progress + 1\<rparr>)"

text \<open>
  \<^verbatim>\<open>Promise.all(playlist.maps.map(callback))\<close>: the results in the order of the input.
  The lookups are functions of their argument, so the order in which the callbacks finish
  does not show in the result; the section on interleavings below proves it.
\<close>

fun Promise_all_map ::
  "'j Env \<Rightarrow> IBeatmap list \<Rightarrow> Progress \<Rightarrow> PlaylistLocalMap list \<times> Progress" where
  "Promise_all_map env [] progress = ([], progress)"
| "Promise_all_map env (m # ms) progress =
     (let (r, progress1) = local_map_callback env m progress;
          (rs, progress2) = Promise_all_map env ms progress1
      in (r # rs, progress2))"

text \<open>
  The second argument is \<open>None\<close> when the caller passes no progress object; the default
  parameter then makes a new one. The function returns the playlist and the progress
  object as the call leaves it.
\<close>

definition ConvertToPlaylistLocal ::
  "'j Env \<Rightarrow> IPlaylist \<Rightarrow> Progress option \<Rightarrow> PlaylistLocal \<times> Progress" where
  "ConvertToPlaylistLocal env playlist progress_arg =
     (let progress = (case progress_arg of None \<Rightarrow> new_Progress | Some p \<Rightarrow> p);
          progress = progress\<lparr>status := Running\<rparr>;
          progress = progress\<lparr>total := int (length (IPlaylist.maps playlist))\<rparr>;
          (local_maps, progress) = Promise_all_map env (IPlaylist.maps playlist) progress;
          progress = progress\<lparr>status := Completed\<rparr>
      in (\<lparr>title = IPlaylist.title playlist,
           author = IPlaylist.author playlist,
           description = IPlaylist.description playlist,
           cover = IPlaylist.cover playlist,
           path = None,
           maps = local_maps\<rparr>, progress))"

subsection \<open>\<^verbatim>\<open>Save\<close>, \<^verbatim>\<open>ConvertPlaylistFile\<close> and \<^verbatim>\<open>Load\<close>\<close>

text \<open>The body of the \<^verbatim>\<open>try\<close> block of \<^verbatim>\<open>Save\<close>.\<close>

definition Save_try :: "'j Env \<Rightarrow> FileSystem \<Rightarrow> string \<Rightarrow> PlaylistLocal \<Rightarrow> exn + FileSystem" where
  "Save_try env fs filepath playlist =
     (let blisterPlaylist = ConvertToPlaylistBlister playlist in
      case serialize env blisterPlaylist of
        Inl e \<Rightarrow> Inl e
      | Inr buffer \<Rightarrow> writeFile fs filepath buffer)"

definition Save :: "'j Env \<Rightarrow> FileSystem \<Rightarrow> string \<Rightarrow> PlaylistLocal \<Rightarrow> (exn + bool) \<times> FileSystem" where
  "Save env fs filepath playlist =
     (case Save_try env fs filepath playlist of
        Inl e \<Rightarrow> (Inr False, fs)
      | Inr fs' \<Rightarrow> (Inr True, fs'))"

definition new_filepath :: "'j Env \<Rightarrow> string \<Rightarrow> string" where
  "new_filepath env filepath =
     (let filename = path_parse_name env filepath @ ''.'' @ PLAYLIST_EXTENSION_NAME
      in path_join env (path_parse_dir env filepath) filename)"

definition ConvertPlaylistFile ::
  "'j Env \<Rightarrow> FileSystem \<Rightarrow> string \<Rightarrow> PlaylistLocal \<Rightarrow> (exn + unit) \<times> FileSystem" where
  "ConvertPlaylistFile env fs filepath playlist =
     (let newFilepath = new_filepath env filepath in
      case Save env fs newFilepath playlist of
        (Inl e, fs1) \<Rightarrow> (Inl e, fs1)
      | (Inr done, fs1) \<Rightarrow>
          if done then
            (case unlink fs1 filepath of
               Inl e \<Rightarrow> (Inl e, fs1)
             | Inr fs2 \<Rightarrow> (Inr (), fs2))
          else (Inr (), fs1))"

text \<open>
  The two decoders of \<^verbatim>\<open>Load\<close>. \<open>Inr None\<close> is the \<^verbatim>\<open>return undefined\<close> of the
  \<^verbatim>\<open>catch\<close> block; the binary branch has no \<^verbatim>\<open>try\<close>.
\<close>

definition decode_legacy :: "'j Env \<Rightarrow> Buffer \<Rightarrow> exn + IPlaylist option" where
  "decode_legacy env buffer =
     (case JSON_parse env (Buffer_toString env buffer) of
        Inl e \<Rightarrow> Inr None
      | Inr legacyPlaylist \<Rightarrow>
          (case convertLegacyPlaylist env legacyPlaylist of
             Inl e \<Rightarrow> Inr None
           | Inr playlist \<Rightarrow> Inr (Some playlist)))"

definition decode_binary :: "'j Env \<Rightarrow> Buffer \<Rightarrow> exn + IPlaylist option" where
  "decode_binary env buffer =
     (case deserialize env buffer of
        Inl e \<Rightarrow> Inl e
      | Inr playlist \<Rightarrow> Inr (Some playlist))"

text \<open>
  \<^verbatim>\<open>Load\<close> returns its result, the file system and the caller's progress object (if the
  caller passed one) as the call leaves them.
\<close>

definition Load ::
  "'j Env \<Rightarrow> FileSystem \<Rightarrow> string \<Rightarrow> bool \<Rightarrow> Progress option
     \<Rightarrow> (exn + PlaylistLocal option) \<times> FileSystem \<times> Progress option" where
  "Load env fs filepath forceConvertIfNeeded progress =
     (if \<not> pathExists fs filepath then (Inr None, fs, progress)
      else
        case readFile fs filepath of
          Inl e \<Rightarrow> (Inl e, fs, progress)
        | Inr buffer \<Rightarrow>
           (case IsOldFormat env buffer of
              Inl e \<Rightarrow> (Inl e, fs, progress)
            | Inr oldFormat \<Rightarrow>
               (case (if oldFormat then decode_legacy env buffer else decode_binary env buffer) of
                  Inl e \<Rightarrow> (Inl e, fs, progress)
                | Inr None \<Rightarrow> (Inr None, fs, progress)
                | Inr (Some playlist) \<Rightarrow>
                   (let (output, progress1) = ConvertToPlaylistLocal env playlist progress;
                        sink = map_option (\<lambda>_. progress1) progress
                    in if oldFormat \<and> forceConvertIfNeeded then
                         (case ConvertPlaylistFile env fs filepath output of
                            (Inl e, fs1) \<Rightarrow> (Inl e, fs1, sink)
                          | (Inr _, fs1) \<Rightarrow> (Inr (Some (output\<lparr>path := Some filepath\<rparr>)), fs1, sink))
                       else (Inr (Some (output\<lparr>path := Some filepath\<rparr>)), fs, sink)))))"

subsection \<open>The interleavings of \<^verbatim>\<open>Promise.all\<close>\<close>

text \<open>
  \<^verbatim>\<open>ConvertToPlaylistLocal\<close> as the event loop runs it. \<^verbatim>\<open>Array.prototype.map\<close> calls the
  callback on each entry in order. A callback on a Key or Hash entry starts its lookup
  and is suspended at its \<^verbatim>\<open>await\<close>; a callback on any other entry has no \<^verbatim>\<open>await\<close> and
  runs to its end, the increment included, inside the call. Only when \<^verbatim>\<open>map\<close> has returned
  and the method awaits \<^verbatim>\<open>Promise.all\<close> do the suspended callbacks resume, in any order;
  each one then runs to its end without interruption. When all have ended the method
  sets the status to completed and returns.
\<close>

datatype Task = Awaiting IBeatmap | Resolved PlaylistLocalMap

datatype Phase = Called | Started | Returned

record Run =
  phase :: Phase
  sink :: Progress
  called :: "Task list"
  pending :: "IBeatmap list"

datatype Event = Enter | CallNext | Resume nat | Return

fun needs_lookup :: "BeatmapPayload \<Rightarrow> bool" where
  "needs_lookup (KeyBeatmap _) = True"
| "needs_lookup (HashBeatmap _) = True"
| "needs_lookup _ = False"

fun is_Resolved :: "Task \<Rightarrow> bool" where
  "is_Resolved (Resolved _) = True"
| "is_Resolved (Awaiting _) = False"

text \<open>The map a task ends with.\<close>

fun settle :: "'j Env \<Rightarrow> Task \<Rightarrow> PlaylistLocalMap" where
  "settle env (Resolved r) = r"
| "settle env (Awaiting m) = convert_map env m"

definition increment :: "Progress \<Rightarrow> Progress" where
  "increment progress = progress\<lparr>done' := done' progress + 1\<rparr>"

text \<open>One event, when the state allows it; \<open>None\<close> when it does not.\<close>

fun fire :: "'j Env \<Rightarrow> IPlaylist \<Rightarrow> Run \<Rightarrow> Event \<Rightarrow> Run option" where
  "fire env playlist r Enter =
     (if phase r = Called
      then Some (r\<lparr>phase := Started,
                   sink := (sink r)\<lparr>status := Running,
                                    total := int (length (IPlaylist.maps playlist))\<rparr>\<rparr>)
      else None)"
| "fire env playlist r CallNext =
     (if phase r = Started
      then (case pending r of
              [] \<Rightarrow> None
            | m # ms \<Rightarrow>
                if needs_lookup (payload m)
                then Some (r\<lparr>called := called r @ [Awaiting m], pending := ms\<rparr>)
                else Some (r\<lparr>called := called r @ [Resolved (convert_map env m)], pending := ms,
                             sink := increment (sink r)\<rparr>))
      else None)"
| "fire env playlist r (Resume i) =
     (if phase r = Started \<and> pending r = [] \<and> i < length (called r)
      then (case called r ! i of
              Awaiting m \<Rightarrow>
                Some (r\<lparr>called := (called r)[i := Resolved (convert_map env m)],
                        sink := increment (sink r)\<rparr>)
            | Resolved _ \<Rightarrow> None)
      else None)"
| "fire env playlist r Return =
     (if phase r = Started \<and> pending r = [] \<and> list_all is_Resolved (called r)
      then Some (r\<lparr>phase := Returned, sink := (sink r)\<lparr>status := Completed\<rparr>\<rparr>)
      else None)"

fun fire_all :: "'j Env \<Rightarrow> IPlaylist \<Rightarrow> Run \<Rightarrow> Event list \<Rightarrow> Run option" where
  "fire_all env playlist r [] = Some r"
| "fire_all env playlist r (e # es) =
     (case fire env playlist r e of
        None \<Rightarrow> None
      | Some r' \<Rightarrow> fire_all env playlist r' es)"

definition initial_run :: "IPlaylist \<Rightarrow> Progress option \<Rightarrow> Run" where
  "initial_run playlist progress_arg =
     \<lparr>phase = Called,
      sink = (case progress_arg of None \<Rightarrow> new_Progress | Some p \<Rightarrow> p),
      called = [],
      pending = IPlaylist.maps playlist\<rparr>"

text \<open>The number of callbacks that have ended.\<close>

definition completed :: "Run \<Rightarrow> nat" where
  "completed r = length (filter is_Resolved (called r))"

subsection \<open>The spec's words, for comparison with the code\<close>

text \<open>
  The save-direction projection as the specification words it: the maps without a
  resolution are dropped, each remaining one becomes a Hash entry with the hash in lower
  case decoded from hexadecimal text and with the date it had.
\<close>

definition reencode_map :: "PlaylistLocalMap \<Rightarrow> IBeatmap" where
  "reencode_map m =
     \<lparr>IBeatmap.dateAdded = PlaylistLocalMap.dateAdded m,
      payload = HashBeatmap (Buffer_from_hex (toLowerCase (online_hash_or_empty (online m))))\<rparr>"

definition ToCanonical_spec :: "PlaylistLocal \<Rightarrow> IPlaylist" where
  "ToCanonical_spec L =
     \<lparr>IPlaylist.title = PlaylistLocal.title L,
      IPlaylist.author = PlaylistLocal.author L,
      IPlaylist.description = PlaylistLocal.description L,
      IPlaylist.cover = PlaylistLocal.cover L,
      IPlaylist.maps =
        map reencode_map (filter (\<lambda>m. online m \<noteq> Undefined) (PlaylistLocal.maps L))\<rparr>"

text \<open>Text made of the digits 0 to 9 and a to f only, and the number such a text denotes.\<close>

definition lower_hex :: "string \<Rightarrow> bool" where
  "lower_hex s = list_all (\<lambda>c. c \<in> set ''0123456789abcdef'') s"

definition hex_value :: "string \<Rightarrow> nat" where
  "hex_value s = foldl (\<lambda>acc c. 16 * acc + (case unhex c of None \<Rightarrow> 0 | Some d \<Rightarrow> d)) 0 s"




text \<open>
  The text under which \<^verbatim>\<open>Load\<close> asks the catalog for a map that \<^verbatim>\<open>Save\<close> wrote from
  the hash \<open>h\<close>: \<^verbatim>\<open>Save\<close> writes \<^verbatim>\<open>Buffer.from(h.toLowerCase(), 'hex')\<close>, and \<^verbatim>\<open>Load\<close>
  renders those bytes with \<^verbatim>\<open>toString('hex')\<close>.
\<close>

definition lookup_text :: "string \<Rightarrow> string" where
  "lookup_text h = buffer_toString_hex (Buffer_from_hex (toLowerCase h))"


text \<open>Text made of hexadecimal digits of either case.\<close>

definition hex_text :: "string \<Rightarrow> bool" where
  "hex_text s = list_all (\<lambda>c. c \<in> set ''0123456789abcdefABCDEF'') s"

subsection \<open>Sample data\<close>

text \<open>
  A small catalog, serializer and file system, on which the theorems below are
  instantiated. The catalog knows one key and one hash. The serializer knows one
  playlist, \<open>sample_blister\<close>, and one encoding of it, which starts with the two bytes
  that the sample validation accepts as the marker. Paths are POSIX paths.
\<close>

definition sample_entry :: BeatsaverBeatmap where
  "sample_entry = \<lparr>hash = ''ab12'', details = ''a song''\<rparr>"

definition sample_blister :: IPlaylist where
  "sample_blister =
     \<lparr>IPlaylist.title = ''Favourites'', IPlaylist.author = ''someone'',
      IPlaylist.description = ''for the weekend'', IPlaylist.cover = [1, 2, 3],
      IPlaylist.maps = [\<lparr>IBeatmap.dateAdded = 100, payload = HashBeatmap [171, 18]\<rparr>]\<rparr>"

definition sample_binary :: Buffer where
  "sample_binary = [66, 108, 1]"

definition sample_corrupt :: Buffer where
  "sample_corrupt = [66, 108, 255]"

definition sample_legacy :: Buffer where
  "sample_legacy = [123, 125]"

definition sample_basename :: "string \<Rightarrow> string" where
  "sample_basename p = rev (takeWhile (\<lambda>c. c \<noteq> CHR ''/'') (rev p))"

definition sample_name :: "string \<Rightarrow> string" where
  "sample_name p =
     (let b = sample_basename p in
      if CHR ''.'' \<in> set b then rev (drop 1 (dropWhile (\<lambda>c. c \<noteq> CHR ''.'') (rev b))) else b)"

definition sample_dir :: "string \<Rightarrow> string" where
  "sample_dir p = rev (drop 1 (dropWhile (\<lambda>c. c \<noteq> CHR ''/'') (rev p)))"

definition sample_join :: "string \<Rightarrow> string \<Rightarrow> string" where
  "sample_join d f = (if d = [] then f else d @ ''/'' @ f)"

definition sample_env :: "string Env" where
  "sample_env =
     \<lparr>validateMagicNumber =
        (\<lambda>b. if take 2 b = [66, 108] then Inr () else Inl (Thrown ''Invalid magic number'')),
      deserialize =
        (\<lambda>b. if b = sample_binary then Inr sample_blister else Inl (Thrown ''cannot decode'')),
      serialize =
        (\<lambda>p. if p = sample_blister then Inr sample_binary else Inl (Thrown ''cannot encode'')),
      Buffer_toString = map (\<lambda>w. char_of (unat w)),
      JSON_parse =
        (\<lambda>s. case s of
                [] \<Rightarrow> Inl (Thrown ''SyntaxError'')
              | c # _ \<Rightarrow> if c = CHR 0x7B then Inr s else Inl (Thrown ''SyntaxError'')),
      convertLegacyPlaylist = (\<lambda>j. Inr sample_blister),
      getBeatmapByKey = (\<lambda>k. if k = ''ff'' then Some sample_entry else None),
      getBeatmapByHash = (\<lambda>h. if h = ''ab12'' then Some sample_entry else None),
      path_parse_name = sample_name,
      path_parse_dir = sample_dir,
      path_join = sample_join\<rparr>"

definition sample_fs :: FileSystem where
  "sample_fs =
     \<lparr>files = [''lists/fav.json'' \<mapsto> sample_legacy, ''lists/bad.blist'' \<mapsto> sample_corrupt,
               ''locked/old.json'' \<mapsto> sample_legacy],
      denied = (\<lambda>p. p = ''locked/old.blist'')\<rparr>"

text \<open>A canonical playlist with one entry of each kind.\<close>

definition sample_canonical :: IPlaylist where
  "sample_canonical =
     \<lparr>IPlaylist.title = ''Mixed'', IPlaylist.author = ''someone'',
      IPlaylist.description = ''one of each'', IPlaylist.cover = [],
      IPlaylist.maps =
        [\<lparr>IBeatmap.dateAdded = 10, payload = KeyBeatmap 255\<rparr>,
         \<lparr>IBeatmap.dateAdded = 20, payload = HashBeatmap [171, 18]\<rparr>,
         \<lparr>IBeatmap.dateAdded = 30, payload = ZipBeatmap [80, 75]\<rparr>,
         \<lparr>IBeatmap.dateAdded = 40, payload = LevelIDBeatmap ''custom_level_1''\<rparr>,
         \<lparr>IBeatmap.dateAdded = 50, payload = UnknownBeatmap 7\<rparr>,
         \<lparr>IBeatmap.dateAdded = 60, payload = KeyBeatmap 4096\<rparr>]\<rparr>"

text \<open>A loaded playlist with a resolved map, a map never looked up and a map not found.\<close>

definition sample_loaded :: PlaylistLocal where
  "sample_loaded =
     \<lparr>title = ''Favourites'', author = ''someone'', description = ''for the weekend'',
      cover = [1, 2, 3], path = Some ''lists/fav.blist'',
      maps =
        [\<lparr>dateAdded = 100, online = Online \<lparr>hash = ''AB12'', details = ''a song''\<rparr>, error = None\<rparr>,
         \<lparr>dateAdded = 200, online = Undefined, error = Some BeatmapTypeZipNotSupported\<rparr>,
         \<lparr>dateAdded = 300, online = Null, error = None\<rparr>]\<rparr>"

text \<open>
  Two loaded playlists whose only map is resolved: \<open>sample_resolved\<close> is what the
  sample catalog makes of \<open>sample_blister\<close>; \<open>sample_upper\<close> holds an entry whose hash is
  written in capitals.
\<close>

definition sample_resolved :: PlaylistLocal where
  "sample_resolved =
     \<lparr>title = ''Favourites'', author = ''someone'', description = ''for the weekend'',
      cover = [1, 2, 3], path = None,
      maps = [\<lparr>dateAdded = 100, online = Online sample_entry, error = None\<rparr>]\<rparr>"




text \<open>A progress object as an earlier load of six maps has left it.\<close>

definition used_sink :: Progress where
  "used_sink = \<lparr>status = Completed, total = 6, done' = 6\<rparr>"

text \<open>
  What holds of every state of a run that starts with the progress object \<open>p0\<close>: the
  callbacks called so far are those of the first entries, in order, each one suspended or
  ended with the map of its entry; the counter has grown by the number of callbacks
  that have ended; and the status and the total are as the phase says.
\<close>

definition run_invariant :: "'j Env \<Rightarrow> IPlaylist \<Rightarrow> Progress \<Rightarrow> Run \<Rightarrow> bool" where
  "run_invariant env playlist p0 r =
     (length (called r) \<le> length (IPlaylist.maps playlist)
      \<and> map (settle env) (called r)
          = map (convert_map env) (take (length (called r)) (IPlaylist.maps playlist))
      \<and> pending r = drop (length (called r)) (IPlaylist.maps playlist)
      \<and> done' (sink r) = done' p0 + int (completed r)
      \<and> (case phase r of
            Called \<Rightarrow> called r = [] \<and> sink r = p0
          | Started \<Rightarrow>
              status (sink r) = Running
              \<and> total (sink r) = int (length (IPlaylist.maps playlist))
          | Returned \<Rightarrow>
              status (sink r) = Completed
              \<and> total (sink r) = int (length (IPlaylist.maps playlist))
              \<and> pending r = [] \<and> list_all is_Resolved (called r)))"

text \<open>A bound on the number of events that can still happen.\<close>

definition events_left :: "Run \<Rightarrow> nat" where
  "events_left r =
     (case phase r of Called \<Rightarrow> 2 | Started \<Rightarrow> 1 | Returned \<Rightarrow> 0)
     + 2 * length (pending r) + length (filter (\<lambda>t. \<not> is_Resolved t) (called r))"

text \<open>
  One interleaving for \<open>sample_canonical\<close>: the six callbacks are called; the three
  suspended ones (positions 0, 1 and 5) resume in the order 5, 0, 1.
\<close>

definition sample_schedule :: "Event list" where
  "sample_schedule =
     [Enter, CallNext, CallNext, CallNext, CallNext, CallNext, CallNext,
      Resume 5, Resume 0, Resume 1, Return]"

section \<open>Properties\<close>

subsection \<open>Hexadecimal text\<close>

lemma hex_digit_lower: "n < 16 \<Longrightarrow> hex_digit n \<in> set ''0123456789abcdef''"
  unfolding hex_digit_def by (rule nth_mem) simp

lemma unhex_hex_digit_table: "\<forall>n \<in> set [0..<16]. unhex (hex_digit n) = Some n"
  by code_simp

lemma unhex_hex_digit: "n < 16 \<Longrightarrow> unhex (hex_digit n) = Some n"
  using unhex_hex_digit_table by simp

lemma lower_hex_hex_of_nat: "lower_hex (hex_of_nat n)"
proof (induction n rule: hex_of_nat.induct)
  case (1 n)
  show ?case
  proof (cases "n < 16")
    case True
    then show ?thesis
      using hex_digit_lower [of n] by (simp add: lower_hex_def hex_of_nat.simps)
  next
    case False
    with 1 hex_digit_lower [of "n mod 16"] show ?thesis
      by (subst hex_of_nat.simps) (simp add: lower_hex_def)
  qed
qed

lemma hex_value_snoc:
  "hex_value (s @ [c]) = 16 * hex_value s + (case unhex c of None \<Rightarrow> 0 | Some d \<Rightarrow> d)"
  by (simp add: hex_value_def)

lemma hex_value_hex_of_nat: "hex_value (hex_of_nat n) = n"
proof (induction n rule: hex_of_nat.induct)
  case (1 n)
  show ?case
  proof (cases "n < 16")
    case True
    then show ?thesis by (simp add: hex_value_def unhex_hex_digit hex_of_nat.simps)
  next
    case False
    with 1 show ?thesis
      by (subst hex_of_nat.simps) (simp add: hex_value_snoc unhex_hex_digit)
  qed
qed

lemma byte_bound: "unat (b :: 8 word) < 256"
  using unsigned_less [of b, where 'a = nat] by simp

lemma lower_hex_toString: "lower_hex (buffer_toString_hex bs)"
proof (induction bs)
  case Nil
  show ?case by (simp add: lower_hex_def)
next
  case (Cons b bs)
  have "unat b div 16 < 16" using byte_bound [of b] by simp
  with Cons hex_digit_lower [of "unat b div 16"] hex_digit_lower [of "unat b mod 16"]
  show ?case by (simp add: lower_hex_def)
qed

text \<open>Decoding undoes encoding: the bytes of a hash survive the trip through text.\<close>

lemma from_hex_toString: "Buffer_from_hex (buffer_toString_hex bs) = bs"
proof (induction bs)
  case Nil
  show ?case by simp
next
  case (Cons b bs)
  have "(of_nat (16 * (unat b div 16) + unat b mod 16) :: 8 word) = b"
    by simp
  with Cons byte_bound [of b] show ?case
    by (simp add: unhex_hex_digit)
qed

subsection \<open>The resolver as a function\<close>

lemma Promise_all_map_eq:
  "Promise_all_map env ms p =
     (map (convert_map env) ms, p\<lparr>done' := done' p + int (length ms)\<rparr>)"
  by (induction ms arbitrary: p) (simp_all add: local_map_callback_def add.assoc)

lemma ConvertToPlaylistLocal_eq:
  "ConvertToPlaylistLocal env playlist progress_arg =
     (\<lparr>title = IPlaylist.title playlist, author = IPlaylist.author playlist,
       description = IPlaylist.description playlist, cover = IPlaylist.cover playlist,
       path = None, maps = map (convert_map env) (IPlaylist.maps playlist)\<rparr>,
      (case progress_arg of None \<Rightarrow> new_Progress | Some p \<Rightarrow> p)
        \<lparr>status := Completed, total := int (length (IPlaylist.maps playlist)),
         done' := done' (case progress_arg of None \<Rightarrow> new_Progress | Some p \<Rightarrow> p)
                + int (length (IPlaylist.maps playlist))\<rparr>)"
  by (simp add: ConvertToPlaylistLocal_def Promise_all_map_eq Let_def)

text \<open>
  Claim C1. Whatever the playlist and the position, the map that
  \<^verbatim>\<open>ConvertToPlaylistLocal\<close> returns at a position is decided by the tag of the entry at
  that position. A Zip entry gets the zip error, a LevelID entry the level-id error, an
  entry of any other unknown tag the unknown-type error, and none of the three gets an
  \<^verbatim>\<open>online\<close> value. A Key entry gets as \<^verbatim>\<open>online\<close> what the catalog answers for the key
  written in hexadecimal, or \<^verbatim>\<open>null\<close> when it answers nothing; a Hash entry likewise for
  the hash written in hexadecimal. The text of a hash is made of the digits 0-9a-f and
  decodes to the hash; so is the text of a non-negative key, and it denotes the key.
\<close>

theorem dispatch_by_tag:
  assumes "i < length (IPlaylist.maps playlist)"
  shows "(let m = IPlaylist.maps playlist ! i;
              r = PlaylistLocal.maps (fst (ConvertToPlaylistLocal env playlist progress)) ! i
          in case payload m of
               ZipBeatmap z \<Rightarrow>
                 error r = Some BeatmapTypeZipNotSupported \<and> online r = Undefined
             | LevelIDBeatmap l \<Rightarrow>
                 error r = Some BeatmapTypeLevelIdNotSupported \<and> online r = Undefined
             | UnknownBeatmap t \<Rightarrow>
                 error r = Some BeatmapTypeUnknown \<and> online r = Undefined
             | KeyBeatmap key \<Rightarrow>
                 online r = (case getBeatmapByKey env (number_toString16 key) of
                               None \<Rightarrow> Null | Some b \<Rightarrow> Online b)
                 \<and> error r = None
                 \<and> (0 \<le> key \<longrightarrow> lower_hex (number_toString16 key)
                                \<and> int (hex_value (number_toString16 key)) = key)
             | HashBeatmap h \<Rightarrow>
                 online r = (case getBeatmapByHash env (buffer_toString_hex h) of
                               None \<Rightarrow> Null | Some b \<Rightarrow> Online b)
                 \<and> error r = None
                 \<and> lower_hex (buffer_toString_hex h)
                 \<and> Buffer_from_hex (buffer_toString_hex h) = h)"
proof -
  have r: "PlaylistLocal.maps (fst (ConvertToPlaylistLocal env playlist progress)) ! i
             = convert_map env (IPlaylist.maps playlist ! i)"
    using assms by (simp add: ConvertToPlaylistLocal_eq)
  show ?thesis
    unfolding Let_def r
    by (cases "payload (IPlaylist.maps playlist ! i)")
       (simp_all add: convert_map_def number_toString16_def lower_hex_hex_of_nat
          hex_value_hex_of_nat lower_hex_toString from_hex_toString split: option.split)
qed

theorem dispatch_by_tag_witness:
  "PlaylistLocal.maps (fst (ConvertToPlaylistLocal sample_env sample_canonical None)) =
     [\<lparr>dateAdded = 10, online = Online sample_entry, error = None\<rparr>,
      \<lparr>dateAdded = 20, online = Online sample_entry, error = None\<rparr>,
      \<lparr>dateAdded = 30, online = Undefined, error = Some BeatmapTypeZipNotSupported\<rparr>,
      \<lparr>dateAdded = 40, online = Undefined, error = Some BeatmapTypeLevelIdNotSupported\<rparr>,
      \<lparr>dateAdded = 50, online = Undefined, error = Some BeatmapTypeUnknown\<rparr>,
      \<lparr>dateAdded = 60, online = Null, error = None\<rparr>]"
proof -
  have len: "length (IPlaylist.maps sample_canonical) = 6"
    by (simp add: sample_canonical_def)
  have "length (PlaylistLocal.maps (fst (ConvertToPlaylistLocal sample_env sample_canonical None))) = 6"
    by (simp add: ConvertToPlaylistLocal_eq len)
  moreover note
    dispatch_by_tag [of 0 sample_canonical sample_env None]
    dispatch_by_tag [of 1 sample_canonical sample_env None]
    dispatch_by_tag [of 2 sample_canonical sample_env None]
    dispatch_by_tag [of 3 sample_canonical sample_env None]
    dispatch_by_tag [of 4 sample_canonical sample_env None]
    dispatch_by_tag [of 5 sample_canonical sample_env None]
  ultimately show ?thesis
    by (simp add: ConvertToPlaylistLocal_eq sample_canonical_def sample_env_def convert_map_def
        number_toString16_def hex_of_nat.simps hex_digit_def)
qed

subsection \<open>The projection for saving\<close>

lemma filter_defined_blister:
  "filter_defined (map blister_map_callback ms) =
     map reencode_map (filter (\<lambda>m. online m \<noteq> Undefined) ms)"
  by (induction ms) (simp_all add: blister_map_callback_def reencode_map_def)

lemma filter_defined_append:
  "filter_defined (xs @ ys) = filter_defined xs @ filter_defined ys"
  by (induction xs rule: filter_defined.induct) simp_all

text \<open>
  Claim C3. \<^verbatim>\<open>ConvertToPlaylistBlister\<close> is the projection the specification describes:
  title, author, description and cover are copied; a map whose \<^verbatim>\<open>online\<close> is undefined
  is left out; every other map, found or \<^verbatim>\<open>null\<close>, yields one entry, in the order of the
  input, with the date of the map and the hash in lower case decoded from hexadecimal
  text; and every entry of the result is tagged Hash.
\<close>

theorem projection_is_ToCanonical:
  "ConvertToPlaylistBlister L = ToCanonical_spec L
   \<and> map (beatmap_type \<circ> payload) (IPlaylist.maps (ConvertToPlaylistBlister L))
       = replicate (length (filter (\<lambda>m. online m \<noteq> Undefined) (PlaylistLocal.maps L))) Hash"
  by (simp add: ConvertToPlaylistBlister_def ToCanonical_spec_def filter_defined_blister
      reencode_map_def map_replicate_const comp_def)

theorem projection_is_ToCanonical_witness:
  "ConvertToPlaylistBlister sample_loaded =
     \<lparr>IPlaylist.title = ''Favourites'', IPlaylist.author = ''someone'',
      IPlaylist.description = ''for the weekend'', IPlaylist.cover = [1, 2, 3],
      IPlaylist.maps = [\<lparr>IBeatmap.dateAdded = 100, payload = HashBeatmap [171, 18]\<rparr>,
                        \<lparr>IBeatmap.dateAdded = 300, payload = HashBeatmap []\<rparr>]\<rparr>"
  using projection_is_ToCanonical [of sample_loaded]
  by (simp add: ToCanonical_spec_def sample_loaded_def reencode_map_def toLowerCase_def
      char_toLowerCase_def unhex_def)

text \<open>
  Claim C10. A map whose \<^verbatim>\<open>online\<close> is \<^verbatim>\<open>null\<close> is not dropped by
  \<^verbatim>\<open>ConvertToPlaylistBlister\<close>: wherever it stands in the playlist, the result has at
  its place, between the entries of the maps before it and of those after it, a Hash
  entry with the date of the map and a hash of no bytes.
\<close>

theorem null_map_kept_with_empty_hash:
  assumes "PlaylistLocal.maps L = pre @ m # post" and "online m = Null"
  shows "IPlaylist.maps (ConvertToPlaylistBlister L) =
           IPlaylist.maps (ConvertToPlaylistBlister (L\<lparr>maps := pre\<rparr>))
           @ \<lparr>IBeatmap.dateAdded = PlaylistLocalMap.dateAdded m, payload = HashBeatmap []\<rparr>
           # IPlaylist.maps (ConvertToPlaylistBlister (L\<lparr>maps := post\<rparr>))"
  using assms
  by (simp add: ConvertToPlaylistBlister_def filter_defined_append blister_map_callback_def
      toLowerCase_def)

theorem null_map_kept_with_empty_hash_witness:
  "IPlaylist.maps (ConvertToPlaylistBlister sample_loaded) =
     [\<lparr>IBeatmap.dateAdded = 100, payload = HashBeatmap [171, 18]\<rparr>,
      \<lparr>IBeatmap.dateAdded = 300, payload = HashBeatmap []\<rparr>]"
  using null_map_kept_with_empty_hash [of sample_loaded
      "[\<lparr>dateAdded = 100, online = Online \<lparr>hash = ''AB12'', details = ''a song''\<rparr>, error = None\<rparr>,
        \<lparr>dateAdded = 200, online = Undefined, error = Some BeatmapTypeZipNotSupported\<rparr>]"
      "\<lparr>dateAdded = 300, online = Null, error = None\<rparr>" "[]"]
  by (simp add: sample_loaded_def ConvertToPlaylistBlister_def blister_map_callback_def
      toLowerCase_def char_toLowerCase_def unhex_def)

subsection \<open>Format detection\<close>

text \<open>
  Claim C7. For every buffer, \<^verbatim>\<open>IsOldFormat\<close> returns normally: \<^verbatim>\<open>false\<close> when the
  validation of the marker returns, \<^verbatim>\<open>true\<close> when it throws, whatever it throws and
  whatever the buffer holds.
\<close>

theorem IsOldFormat_total:
  "IsOldFormat env buffer = Inr (isl (validateMagicNumber env buffer))"
  by (simp add: IsOldFormat_def split: sum.split)

subsection \<open>What the resolver returns\<close>

lemma or_null_defined: "or_null x \<noteq> Undefined"
  by (cases x) simp_all

lemma convert_map_exclusive:
  "(online (convert_map env m) \<noteq> Undefined) = (error (convert_map env m) = None)"
  by (cases "payload m") (simp_all add: convert_map_def or_null_defined)

lemma convert_map_dateAdded:
  "PlaylistLocalMap.dateAdded (convert_map env m) = IBeatmap.dateAdded m"
  by (cases "payload m") (simp_all add: convert_map_def)

text \<open>
  Claim C2, as amended. When \<^verbatim>\<open>ConvertToPlaylistLocal\<close> returns, every map of the result
  has either an \<^verbatim>\<open>online\<close> value (possibly \<^verbatim>\<open>null\<close>) or an error, never both and never
  neither; the maps are those of the input, one for one and in the same order, each with
  the date of its entry; the progress object is completed, its total is the number of
  maps, and its counter is what it was at the call plus the number of maps. So the
  counter equals the total when it was zero at the call, as it is for the new object made
  when the caller passes none.
\<close>

theorem resolver_completeness:
  "(let p0 = (case progress_arg of None \<Rightarrow> new_Progress | Some p \<Rightarrow> p);
        out = fst (ConvertToPlaylistLocal env playlist progress_arg);
        p1 = snd (ConvertToPlaylistLocal env playlist progress_arg);
        n = length (IPlaylist.maps playlist)
    in list_all (\<lambda>r. (online r \<noteq> Undefined) \<noteq> (error r \<noteq> None)) (PlaylistLocal.maps out)
       \<and> PlaylistLocal.maps out = map (convert_map env) (IPlaylist.maps playlist)
       \<and> map PlaylistLocalMap.dateAdded (PlaylistLocal.maps out)
           = map IBeatmap.dateAdded (IPlaylist.maps playlist)
       \<and> length (PlaylistLocal.maps out) = n
       \<and> status p1 = Completed
       \<and> total p1 = int n
       \<and> done' p1 = done' p0 + int n
       \<and> (done' p0 = 0 \<longrightarrow> done' p1 = total p1)
       \<and> (progress_arg = None \<longrightarrow> done' p1 = total p1))"
  by (simp add: ConvertToPlaylistLocal_eq Let_def list_all_iff convert_map_exclusive
      convert_map_dateAdded new_Progress_def comp_def)

text \<open>
  The claim as it was stated asks for the counter to equal the total whatever progress
  object is passed. The method sets the status and the total and never resets the
  counter: on an object that an earlier load of six maps has left at 6 of 6, a load of six
  maps ends at 12 of 6.
\<close>

theorem done_differs_from_total_on_used_sink:
  "done' (snd (ConvertToPlaylistLocal sample_env sample_canonical (Some used_sink))) = 12
   \<and> total (snd (ConvertToPlaylistLocal sample_env sample_canonical (Some used_sink))) = 6"
  by (simp add: ConvertToPlaylistLocal_eq sample_canonical_def used_sink_def)

theorem resolver_completeness_witness:
  "done' (snd (ConvertToPlaylistLocal sample_env sample_canonical (Some new_Progress))) = 6
   \<and> total (snd (ConvertToPlaylistLocal sample_env sample_canonical (Some new_Progress))) = 6
   \<and> done' (snd (ConvertToPlaylistLocal sample_env sample_canonical None)) = 6
   \<and> map PlaylistLocalMap.dateAdded
        (PlaylistLocal.maps (fst (ConvertToPlaylistLocal sample_env sample_canonical None)))
      = [10, 20, 30, 40, 50, 60]"
  using resolver_completeness [of "Some new_Progress" sample_env sample_canonical]
    resolver_completeness [of None sample_env sample_canonical]
  by (simp add: Let_def new_Progress_def sample_canonical_def convert_map_dateAdded)

subsection \<open>Every interleaving\<close>

lemma filter_update_count:
  "i < length xs \<Longrightarrow> \<not> P (xs ! i) \<Longrightarrow> P y \<Longrightarrow>
     length (filter P (xs[i := y])) = Suc (length (filter P xs))"
proof (induction xs arbitrary: i)
  case Nil
  then show ?case by simp
next
  case (Cons x xs)
  then show ?case by (cases i) simp_all
qed

lemma completed_le: "completed r \<le> length (called r)"
  by (simp add: completed_def)

lemma drop_eq_Cons:
  assumes "drop k xs = m # ms"
  shows "k < length xs" and "take (Suc k) xs = take k xs @ [m]" and "drop (Suc k) xs = ms"
proof -
  show k: "k < length xs"
    using assms by (cases "k < length xs") simp_all
  have "xs ! k = m"
    using assms k by (metis hd_drop_conv_nth list.sel(1))
  with k show "take (Suc k) xs = take k xs @ [m]"
    by (simp add: take_Suc_conv_app_nth)
  show "drop (Suc k) xs = ms"
    using assms by (metis drop_Suc list.sel(3) tl_drop)
qed

lemma settle_update:
  assumes "i < length ts" and "ts ! i = Awaiting m"
  shows "map (settle env) (ts[i := Resolved (convert_map env m)]) = map (settle env) ts"
proof -
  have "map (settle env) (ts[i := Resolved (convert_map env m)])
          = (map (settle env) ts)[i := settle env (ts ! i)]"
    using assms by (simp add: map_update)
  also have "\<dots> = map (settle env) ts"
    using assms by (metis list_update_id map_update)
  finally show ?thesis .
qed

lemma run_invariant_initial:
  "run_invariant env playlist (case progress_arg of None \<Rightarrow> new_Progress | Some p \<Rightarrow> p)
     (initial_run playlist progress_arg)"
  by (simp add: run_invariant_def initial_run_def completed_def)

lemma fire_preserves:
  assumes "fire env playlist r e = Some r'" and "run_invariant env playlist p0 r"
  shows "run_invariant env playlist p0 r'"
proof (cases e)
  case Enter
  with assms show ?thesis
    by (auto simp: run_invariant_def completed_def split: if_splits)
next
  case CallNext
  with assms obtain m ms where st: "phase r = Started" and pe: "pending r = m # ms"
    by (auto split: if_splits list.splits)
  from assms(2) pe have d: "drop (length (called r)) (IPlaylist.maps playlist) = m # ms"
    by (simp add: run_invariant_def)
  note dd = drop_eq_Cons [OF d]
  show ?thesis
  proof (cases "needs_lookup (payload m)")
    case True
    with CallNext st pe assms(1)
    have r': "r' = r\<lparr>called := called r @ [Awaiting m], pending := ms\<rparr>" by simp
    from assms(2) st dd show ?thesis
      unfolding r' by (simp add: run_invariant_def completed_def)
  next
    case False
    with CallNext st pe assms(1)
    have r': "r' = r\<lparr>called := called r @ [Resolved (convert_map env m)], pending := ms,
                      sink := increment (sink r)\<rparr>" by simp
    from assms(2) st dd show ?thesis
      unfolding r' by (simp add: run_invariant_def completed_def increment_def)
  qed
next
  case (Resume i)
  with assms obtain m where st: "phase r = Started" and pe: "pending r = []"
    and i: "i < length (called r)" and ci: "called r ! i = Awaiting m"
    and r': "r' = r\<lparr>called := (called r)[i := Resolved (convert_map env m)],
                     sink := increment (sink r)\<rparr>"
    by (auto split: if_splits Task.splits)
  have c: "completed r' = Suc (completed r)"
    unfolding r' completed_def using i ci by (simp add: filter_update_count)
  from assms(2) st pe i ci show ?thesis
    unfolding run_invariant_def c
    by (simp add: r' settle_update increment_def)
next
  case Return
  with assms show ?thesis
    by (auto simp: run_invariant_def completed_def split: if_splits)
qed

lemma fire_all_preserves:
  "fire_all env playlist r es = Some r' \<Longrightarrow> run_invariant env playlist p0 r \<Longrightarrow>
     run_invariant env playlist p0 r'"
proof (induction es arbitrary: r)
  case Nil
  then show ?case by simp
next
  case (Cons e es)
  then show ?case
    by (auto split: option.splits dest: fire_preserves)
qed

lemma filter_update_less:
  "i < length xs \<Longrightarrow> P (xs ! i) \<Longrightarrow> \<not> P y \<Longrightarrow>
     Suc (length (filter P (xs[i := y]))) = length (filter P xs)"
proof (induction xs arbitrary: i)
  case Nil
  then show ?case by simp
next
  case (Cons x xs)
  then show ?case by (cases i) simp_all
qed

lemma fire_decreases:
  assumes "fire env playlist r e = Some r'"
  shows "events_left r' < events_left r"
proof (cases e)
  case Enter
  with assms show ?thesis
    by (auto simp: events_left_def split: if_splits)
next
  case CallNext
  with assms obtain m ms where st: "phase r = Started" and pe: "pending r = m # ms"
    by (auto split: if_splits list.splits)
  show ?thesis
  proof (cases "needs_lookup (payload m)")
    case True
    with CallNext st pe assms
    have r': "r' = r\<lparr>called := called r @ [Awaiting m], pending := ms\<rparr>" by simp
    from st pe show ?thesis
      unfolding r' by (simp add: events_left_def)
  next
    case False
    with CallNext st pe assms
    have r': "r' = r\<lparr>called := called r @ [Resolved (convert_map env m)], pending := ms,
                      sink := increment (sink r)\<rparr>" by simp
    from st pe show ?thesis
      unfolding r' by (simp add: events_left_def)
  qed
next
  case (Resume i)
  with assms obtain m where st: "phase r = Started" and pe: "pending r = []"
    and i: "i < length (called r)" and ci: "called r ! i = Awaiting m"
    and r': "r' = r\<lparr>called := (called r)[i := Resolved (convert_map env m)],
                     sink := increment (sink r)\<rparr>"
    by (auto split: if_splits Task.splits)
  from i ci
  have "Suc (length (filter (\<lambda>t. \<not> is_Resolved t) ((called r)[i := Resolved (convert_map env m)])))
          = length (filter (\<lambda>t. \<not> is_Resolved t) (called r))"
    by (intro filter_update_less) simp_all
  then show ?thesis
    unfolding events_left_def r' by simp
next
  case Return
  with assms show ?thesis
    by (auto simp: events_left_def split: if_splits)
qed

lemma fire_all_length:
  "fire_all env playlist r es = Some r' \<Longrightarrow> length es + events_left r' \<le> events_left r"
proof (induction es arbitrary: r)
  case Nil
  then show ?case by simp
next
  case (Cons e es)
  from Cons.prems obtain r1 where f: "fire env playlist r e = Some r1"
    and fa: "fire_all env playlist r1 es = Some r'"
    by (auto split: option.splits)
  from Cons.IH [OF fa] fire_decreases [OF f] show ?case by simp
qed

lemma not_all_resolved:
  "\<not> list_all is_Resolved ts \<Longrightarrow> \<exists>i m. i < length ts \<and> ts ! i = Awaiting m"
proof (induction ts)
  case Nil
  then show ?case by simp
next
  case (Cons t ts)
  show ?case
  proof (cases t)
    case (Awaiting m)
    then have "0 < length (t # ts) \<and> (t # ts) ! 0 = Awaiting m" by simp
    then show ?thesis by blast
  next
    case (Resolved x)
    with Cons obtain i m where "i < length ts" "ts ! i = Awaiting m" by auto
    then have "Suc i < length (t # ts) \<and> (t # ts) ! Suc i = Awaiting m" by simp
    then show ?thesis by blast
  qed
qed

lemma can_fire:
  assumes "phase r \<noteq> Returned"
  shows "\<exists>e r'. fire env playlist r e = Some r'"
proof (cases "phase r")
  case Called
  then have "fire env playlist r Enter \<noteq> None" by simp
  then show ?thesis by blast
next
  case Started
  show ?thesis
  proof (cases "pending r")
    case (Cons m ms)
    with Started have "fire env playlist r CallNext \<noteq> None" by simp
    then show ?thesis by blast
  next
    case Nil
    show ?thesis
    proof (cases "list_all is_Resolved (called r)")
      case True
      with Started Nil have "fire env playlist r Return \<noteq> None" by simp
      then show ?thesis by blast
    next
      case False
      then obtain i m where "i < length (called r)" "called r ! i = Awaiting m"
        using not_all_resolved by blast
      with Started Nil have "fire env playlist r (Resume i) \<noteq> None" by simp
      then show ?thesis by blast
    qed
  qed
next
  case Returned
  with assms show ?thesis by simp
qed

lemma fire_all_append:
  "fire_all env playlist r (es @ fs) =
     (case fire_all env playlist r es of None \<Rightarrow> None | Some r' \<Rightarrow> fire_all env playlist r' fs)"
  by (induction es arbitrary: r) (simp_all split: option.split)

lemma can_finish:
  "\<exists>es r'. fire_all env playlist r es = Some r' \<and> phase r' = Returned"
proof (induction "events_left r" arbitrary: r rule: less_induct)
  case less
  show ?case
  proof (cases "phase r = Returned")
    case True
    then have "fire_all env playlist r [] = Some r \<and> phase r = Returned" by simp
    then show ?thesis by blast
  next
    case False
    then obtain e r1 where f: "fire env playlist r e = Some r1"
      using can_fire by blast
    from less [OF fire_decreases [OF f]] obtain es r'
      where "fire_all env playlist r1 es = Some r'" "phase r' = Returned" by blast
    with f have "fire_all env playlist r (e # es) = Some r' \<and> phase r' = Returned" by simp
    then show ?thesis by blast
  qed
qed

lemma all_resolved_settle:
  "list_all is_Resolved ts \<Longrightarrow> ts = map Resolved (map (settle env) ts)"
proof (induction ts)
  case Nil
  then show ?case by simp
next
  case (Cons t ts)
  then show ?case by (cases t) simp_all
qed

lemma run_invariantD:
  assumes "run_invariant env playlist p0 r"
  shows "length (called r) \<le> length (IPlaylist.maps playlist)"
    and "map (settle env) (called r)
          = map (convert_map env) (take (length (called r)) (IPlaylist.maps playlist))"
    and "pending r = drop (length (called r)) (IPlaylist.maps playlist)"
    and "done' (sink r) = done' p0 + int (completed r)"
  using assms unfolding run_invariant_def by blast+

lemma run_invariant_Called:
  assumes "run_invariant env playlist p0 r" and "phase r = Called"
  shows "called r = []" and "sink r = p0"
  using assms by (auto simp: run_invariant_def)

lemma run_invariant_Started:
  assumes "run_invariant env playlist p0 r" and "phase r = Started"
  shows "status (sink r) = Running"
    and "total (sink r) = int (length (IPlaylist.maps playlist))"
  using assms by (auto simp: run_invariant_def)

lemma run_invariant_Returned:
  assumes "run_invariant env playlist p0 r" and "phase r = Returned"
  shows "status (sink r) = Completed"
    and "total (sink r) = int (length (IPlaylist.maps playlist))"
    and "pending r = []"
    and "list_all is_Resolved (called r)"
  using assms by (auto simp: run_invariant_def)

lemma returned_state:
  assumes "run_invariant env playlist p0 r" and "phase r = Returned"
  shows "sink r = p0\<lparr>status := Completed, total := int (length (IPlaylist.maps playlist)),
                     done' := done' p0 + int (length (IPlaylist.maps playlist))\<rparr>"
    and "called r = map Resolved (map (convert_map env) (IPlaylist.maps playlist))"
proof -
  note d = run_invariantD [OF assms(1)] and t = run_invariant_Returned [OF assms]
  from d(3) t(3) have "drop (length (called r)) (IPlaylist.maps playlist) = []" by simp
  with d(1) have len: "length (called r) = length (IPlaylist.maps playlist)" by simp
  from t(4) have "completed r = length (called r)"
    by (simp add: completed_def list_all_iff)
  with len d(4) t(1,2)
  show "sink r = p0\<lparr>status := Completed, total := int (length (IPlaylist.maps playlist)),
                     done' := done' p0 + int (length (IPlaylist.maps playlist))\<rparr>"
    by (intro Progress.equality) simp_all
  from all_resolved_settle [OF t(4), of env] d(2) len
  show "called r = map Resolved (map (convert_map env) (IPlaylist.maps playlist))" by simp
qed

lemma every_run_ends_as_function:
  assumes "fire_all env playlist (initial_run playlist progress_arg) es = Some r"
    and "phase r = Returned"
  shows "sink r = snd (ConvertToPlaylistLocal env playlist progress_arg)"
    and "called r = map Resolved (PlaylistLocal.maps (fst (ConvertToPlaylistLocal env playlist progress_arg)))"
proof -
  have inv: "run_invariant env playlist
               (case progress_arg of None \<Rightarrow> new_Progress | Some p \<Rightarrow> p) r"
    using fire_all_preserves [OF assms(1) run_invariant_initial] .
  from returned_state [OF inv assms(2)]
  show "sink r = snd (ConvertToPlaylistLocal env playlist progress_arg)"
    and "called r = map Resolved (PlaylistLocal.maps (fst (ConvertToPlaylistLocal env playlist progress_arg)))"
    by (simp_all add: ConvertToPlaylistLocal_eq)
qed

lemma some_run_returns:
  "\<exists>es r. fire_all env playlist (initial_run playlist progress_arg) es = Some r
     \<and> phase r = Returned"
  by (rule can_finish)

text \<open>
  Claim C8, as amended. In every state that a run of \<^verbatim>\<open>ConvertToPlaylistLocal\<close> can reach,
  whatever the order in which the suspended callbacks resume: before the method has set
  the status to running and the total to the number of maps, no callback has been
  called; from then on the total is the number of maps, and the status is running until
  the method returns; the counter is its value at the call plus the number of callbacks
  that have ended, whatever their outcome, and that number never exceeds the number of
  maps; so, when the counter was zero at the call, it never exceeds the total. When the
  method has returned, the status is completed and every callback has ended, so the
  counter is its value at the call plus the total. A run cannot get stuck before the
  return, and it has at most two events for each map and two more.
\<close>

theorem progress_in_every_interleaving:
  assumes "fire_all env playlist (initial_run playlist progress_arg) es = Some r"
  shows "(let p0 = (case progress_arg of None \<Rightarrow> new_Progress | Some p \<Rightarrow> p);
              n = length (IPlaylist.maps playlist)
          in (phase r = Called \<longrightarrow> called r = [] \<and> sink r = p0)
           \<and> (phase r \<noteq> Called \<longrightarrow> total (sink r) = int n)
           \<and> (phase r = Started \<longrightarrow> status (sink r) = Running)
           \<and> done' (sink r) = done' p0 + int (completed r)
           \<and> completed r \<le> n
           \<and> (done' p0 = 0 \<and> phase r \<noteq> Called \<longrightarrow> done' (sink r) \<le> total (sink r))
           \<and> (phase r = Returned \<longrightarrow>
                 status (sink r) = Completed \<and> completed r = n
                 \<and> done' (sink r) = done' p0 + int n)
           \<and> (phase r \<noteq> Returned \<longrightarrow> (\<exists>e r'. fire env playlist r e = Some r'))
           \<and> length es \<le> 2 * n + 2)"
proof -
  define p0 where "p0 = (case progress_arg of None \<Rightarrow> new_Progress | Some p \<Rightarrow> p)"
  define n where "n = length (IPlaylist.maps playlist)"
  have inv: "run_invariant env playlist p0 r"
    unfolding p0_def using fire_all_preserves [OF assms run_invariant_initial] .
  note d = run_invariantD [OF inv]
  have c: "completed r \<le> n"
    using completed_le [of r] d(1) by (simp add: n_def)
  have 1: "phase r = Called \<longrightarrow> called r = [] \<and> sink r = p0"
    using run_invariant_Called [OF inv] by simp
  have 2: "phase r \<noteq> Called \<longrightarrow> total (sink r) = int n"
    using run_invariant_Started [OF inv] run_invariant_Returned [OF inv]
    by (cases "phase r") (simp_all add: n_def)
  have 3: "phase r = Started \<longrightarrow> status (sink r) = Running"
    using run_invariant_Started [OF inv] by simp
  have 4: "done' p0 = 0 \<and> phase r \<noteq> Called \<longrightarrow> done' (sink r) \<le> total (sink r)"
    using 2 c d(4) by simp
  have 5: "phase r = Returned \<longrightarrow>
             status (sink r) = Completed \<and> completed r = n \<and> done' (sink r) = done' p0 + int n"
  proof
    assume ret: "phase r = Returned"
    from returned_state [OF inv ret] have "done' (sink r) = done' p0 + int n"
      by (simp add: n_def)
    with d(4) run_invariant_Returned(1) [OF inv ret] show
      "status (sink r) = Completed \<and> completed r = n \<and> done' (sink r) = done' p0 + int n"
      by simp
  qed
  have 6: "phase r \<noteq> Returned \<longrightarrow> (\<exists>e r'. fire env playlist r e = Some r')"
    using can_fire by blast
  have 7: "length es \<le> 2 * n + 2"
    using fire_all_length [OF assms]
    by (simp add: events_left_def initial_run_def n_def)
  from 1 2 3 d(4) c 4 5 6 7 show ?thesis
    unfolding Let_def p0_def [symmetric] n_def [symmetric] by blast
qed

text \<open>
  The claim as it was stated has the counter never exceed the total. On a progress
  object that an earlier load has left at 6 of 6, the counter is at 7 of 6 as soon as the
  first callback without a lookup (the Zip entry, the third) has run.
\<close>

theorem done_exceeds_total_on_used_sink:
  "map_option (\<lambda>r. (phase r, total (sink r), done' (sink r)))
     (fire_all sample_env sample_canonical (initial_run sample_canonical (Some used_sink))
        [Enter, CallNext, CallNext, CallNext])
   = Some (Started, 6, 7)"
  by (simp add: initial_run_def sample_canonical_def used_sink_def increment_def)

theorem progress_in_every_interleaving_witness:
  "map_option (\<lambda>r. (phase r, status (sink r), total (sink r), done' (sink r), completed r))
     (fire_all sample_env sample_canonical (initial_run sample_canonical None) sample_schedule)
   = Some (Returned, Completed, 6, 6, 6)"
proof -
  have "fire_all sample_env sample_canonical (initial_run sample_canonical None) sample_schedule \<noteq> None"
    by (simp add: initial_run_def sample_canonical_def sample_schedule_def increment_def)
  then obtain r where
    r: "fire_all sample_env sample_canonical (initial_run sample_canonical None) sample_schedule = Some r"
    by blast
  have ph: "phase r = Returned"
    using r by (simp add: initial_run_def sample_canonical_def sample_schedule_def increment_def) auto
  have len: "length (IPlaylist.maps sample_canonical) = 6"
    by (simp add: sample_canonical_def)
  from progress_in_every_interleaving [OF r] ph
  have "status (sink r) = Completed \<and> total (sink r) = 6 \<and> done' (sink r) = 6 \<and> completed r = 6"
    by (simp add: Let_def new_Progress_def len)
  with ph show ?thesis
    unfolding r by simp
qed

subsection \<open>Failures of \<^verbatim>\<open>Load\<close> and \<^verbatim>\<open>Save\<close>\<close>

text \<open>
  \<^verbatim>\<open>Save\<close> never throws: it returns \<^verbatim>\<open>false\<close> and leaves the file system as it was, or
  it returns \<^verbatim>\<open>true\<close> and the file holds the serialized projection.
\<close>

lemma Save_cases:
  "Save env fs filepath playlist = (Inr False, fs)
   \<or> (\<exists>buffer. serialize env (ConvertToPlaylistBlister playlist) = Inr buffer
         \<and> \<not> denied fs filepath
         \<and> Save env fs filepath playlist
             = (Inr True, fs\<lparr>files := (files fs)(filepath \<mapsto> buffer)\<rparr>))"
  by (simp add: Save_def Save_try_def writeFile_def split: sum.split)

lemma Save_never_throws: "\<exists>done. fst (Save env fs filepath playlist) = Inr done"
  using Save_cases [of env fs filepath playlist] by auto

lemma Save_False: "fst (Save env fs filepath playlist) = Inr False \<Longrightarrow> snd (Save env fs filepath playlist) = fs"
  using Save_cases [of env fs filepath playlist] by auto

lemma Load_absent:
  "files fs filepath = None \<Longrightarrow> Load env fs filepath force progress = (Inr None, fs, progress)"
  by (simp add: Load_def pathExists_def)

lemma Load_malformed_legacy:
  assumes "files fs filepath = Some buffer" and "\<not> denied fs filepath"
    and "validateMagicNumber env buffer = Inl e"
    and "JSON_parse env (Buffer_toString env buffer) = Inl e'"
  shows "Load env fs filepath force progress = (Inr None, fs, progress)"
  using assms
  by (simp add: Load_def pathExists_def readFile_def IsOldFormat_def decode_legacy_def)

text \<open>What the binary branch does with a failure of \<^verbatim>\<open>deserialize\<close>, in general.\<close>

lemma Load_deserialize_failure:
  assumes "files fs filepath = Some buffer" and "\<not> denied fs filepath"
    and "validateMagicNumber env buffer = Inr u"
    and "deserialize env buffer = Inl e"
  shows "Load env fs filepath force progress = (Inl e, fs, progress)"
  using assms
  by (simp add: Load_def pathExists_def readFile_def IsOldFormat_def decode_binary_def)

text \<open>
  Claim C5. The claim has every failure of \<^verbatim>\<open>Load\<close> and \<^verbatim>\<open>Save\<close> reach the caller as
  \<^verbatim>\<open>undefined\<close> or \<^verbatim>\<open>false\<close>, never as an exception. That holds of \<^verbatim>\<open>Save\<close>
  (\<open>Save_never_throws\<close>), of a missing file (\<open>Load_absent\<close>) and of legacy text that does
  not parse (\<open>Load_malformed_legacy\<close>). It fails for a file that carries the marker and
  does not deserialize: the binary branch of \<^verbatim>\<open>Load\<close> has no \<^verbatim>\<open>try\<close>, unlike the legacy
  branch beside it, and the exception of \<^verbatim>\<open>deserialize\<close> leaves \<^verbatim>\<open>Load\<close>. Here the
  file \<^verbatim>\<open>lists/bad.blist\<close> holds the marker followed by a byte the sample
  deserializer rejects.
\<close>

theorem Load_propagates_deserialize_failure:
  "Load sample_env sample_fs ''lists/bad.blist'' False None
     = (Inl (Thrown ''cannot decode''), sample_fs, None)"
  by (simp add: Load_def pathExists_def readFile_def IsOldFormat_def decode_binary_def
      sample_env_def sample_fs_def sample_corrupt_def sample_binary_def)

subsection \<open>Migration of a legacy file\<close>

lemma ConvertPlaylistFile_cases:
  "ConvertPlaylistFile env fs filepath playlist =
     (case Save env fs (new_filepath env filepath) playlist of
        (Inr True, fs1) \<Rightarrow>
          (case unlink fs1 filepath of Inl e \<Rightarrow> (Inl e, fs1) | Inr fs2 \<Rightarrow> (Inr (), fs2))
      | (_, fs1) \<Rightarrow> (Inr (), fs1))"
  using Save_never_throws [of env fs "new_filepath env filepath" playlist]
  by (auto simp: ConvertPlaylistFile_def split: prod.split sum.split bool.split)

text \<open>
  Claim C6. \<^verbatim>\<open>ConvertPlaylistFile\<close> saves to the path made of the directory of the
  source, the name of the source without its extension and the extension
  \<^verbatim>\<open>.blist\<close>. If that save reports failure, the call returns normally and the file
  system is as it was. If it reports success, the new path holds the serialized
  projection and the call goes on to remove the source. When the source exists and can
  be removed, the call returns normally, the source is gone afterwards exactly when the
  save reported success, and no other path has changed. \<^verbatim>\<open>Load\<close> changes the file system
  only when forced conversion was asked for and the source failed the validation of the
  marker.
\<close>

theorem migration_deletes_after_save:
  "(let newFilepath = path_join env (path_parse_dir env filepath)
                        (path_parse_name env filepath @ ''.blist'');
        saved = Save env fs newFilepath playlist;
        migration = ConvertPlaylistFile env fs filepath playlist
    in (fst saved = Inr False \<longrightarrow> migration = (Inr (), fs))
     \<and> (fst saved = Inr True \<longrightarrow>
          (\<exists>buffer. serialize env (ConvertToPlaylistBlister playlist) = Inr buffer
             \<and> files (snd saved) newFilepath = Some buffer)
          \<and> migration = (case unlink (snd saved) filepath of
                           Inl e \<Rightarrow> (Inl e, snd saved)
                         | Inr fs2 \<Rightarrow> (Inr (), fs2)))
     \<and> (files fs filepath \<noteq> None \<and> \<not> denied fs filepath \<longrightarrow>
          fst migration = Inr ()
          \<and> (files (snd migration) filepath = None \<longleftrightarrow> fst saved = Inr True)
          \<and> (fst saved = Inr True \<and> newFilepath \<noteq> filepath \<longrightarrow>
                files (snd migration) newFilepath = files (snd saved) newFilepath)
          \<and> (\<forall>p. p \<noteq> filepath \<and> p \<noteq> newFilepath \<longrightarrow> files (snd migration) p = files fs p))
     \<and> (fst (snd (Load env fs filepath forceConvertIfNeeded progress)) \<noteq> fs \<longrightarrow>
          forceConvertIfNeeded
          \<and> (\<exists>buffer. files fs filepath = Some buffer \<and> isl (validateMagicNumber env buffer))))"
proof -
  define newFilepath where "newFilepath = new_filepath env filepath"
  have nf: "path_join env (path_parse_dir env filepath) (path_parse_name env filepath @ ''.blist'')
              = newFilepath"
    by (simp add: newFilepath_def new_filepath_def PLAYLIST_EXTENSION_NAME_def)
  define saved where "saved = Save env fs newFilepath playlist"
  define migration where "migration = ConvertPlaylistFile env fs filepath playlist"
  have mig: "migration = (case saved of
        (Inr True, fs1) \<Rightarrow>
          (case unlink fs1 filepath of Inl e \<Rightarrow> (Inl e, fs1) | Inr fs2 \<Rightarrow> (Inr (), fs2))
      | (_, fs1) \<Rightarrow> (Inr (), fs1))"
    unfolding migration_def saved_def newFilepath_def by (rule ConvertPlaylistFile_cases)
  consider (failed) "saved = (Inr False, fs)"
    | (written) buffer where "serialize env (ConvertToPlaylistBlister playlist) = Inr buffer"
        "\<not> denied fs newFilepath"
        "saved = (Inr True, fs\<lparr>files := (files fs)(newFilepath \<mapsto> buffer)\<rparr>)"
    using Save_cases [of env fs newFilepath playlist] unfolding saved_def by blast
  then have main: "(fst saved = Inr False \<longrightarrow> migration = (Inr (), fs))
     \<and> (fst saved = Inr True \<longrightarrow>
          (\<exists>buffer. serialize env (ConvertToPlaylistBlister playlist) = Inr buffer
             \<and> files (snd saved) newFilepath = Some buffer)
          \<and> migration = (case unlink (snd saved) filepath of
                           Inl e \<Rightarrow> (Inl e, snd saved)
                         | Inr fs2 \<Rightarrow> (Inr (), fs2)))
     \<and> (files fs filepath \<noteq> None \<and> \<not> denied fs filepath \<longrightarrow>
          fst migration = Inr ()
          \<and> (files (snd migration) filepath = None \<longleftrightarrow> fst saved = Inr True)
          \<and> (fst saved = Inr True \<and> newFilepath \<noteq> filepath \<longrightarrow>
                files (snd migration) newFilepath = files (snd saved) newFilepath)
          \<and> (\<forall>p. p \<noteq> filepath \<and> p \<noteq> newFilepath \<longrightarrow> files (snd migration) p = files fs p))"
  proof cases
    case failed
    then show ?thesis by (auto simp: mig)
  next
    case written
    then show ?thesis by (auto simp: mig unlink_def split: option.split)
  qed
  have load: "fst (snd (Load env fs filepath forceConvertIfNeeded progress)) \<noteq> fs \<longrightarrow>
          forceConvertIfNeeded
          \<and> (\<exists>buffer. files fs filepath = Some buffer \<and> isl (validateMagicNumber env buffer))"
    by (auto simp: Load_def pathExists_def readFile_def IsOldFormat_def Let_def
        split: option.splits sum.splits if_splits prod.splits)
  from main load show ?thesis
    unfolding Let_def nf saved_def [symmetric] migration_def [symmetric] by blast
qed

lemma sample_new_filepath:
  "new_filepath sample_env ''lists/fav.json'' = ''lists/fav.blist''"
  "new_filepath sample_env ''locked/old.json'' = ''locked/old.blist''"
  by (simp_all add: new_filepath_def sample_env_def sample_name_def sample_dir_def
      sample_basename_def sample_join_def PLAYLIST_EXTENSION_NAME_def)

lemma sample_resolved_blister: "ConvertToPlaylistBlister sample_resolved = sample_blister"
  by (simp add: ConvertToPlaylistBlister_def sample_resolved_def sample_blister_def
      blister_map_callback_def sample_entry_def toLowerCase_def char_toLowerCase_def unhex_def)

lemma sample_Save_ok:
  "Save sample_env sample_fs ''lists/fav.blist'' sample_resolved
     = (Inr True, sample_fs\<lparr>files := (files sample_fs)(''lists/fav.blist'' \<mapsto> sample_binary)\<rparr>)"
  by (simp add: Save_def Save_try_def writeFile_def sample_resolved_blister sample_env_def
      sample_fs_def)

lemma sample_Save_denied:
  "Save sample_env sample_fs ''locked/old.blist'' sample_resolved = (Inr False, sample_fs)"
  by (simp add: Save_def Save_try_def writeFile_def sample_resolved_blister sample_env_def
      sample_fs_def)

theorem migration_deletes_after_save_witness:
  "fst (ConvertPlaylistFile sample_env sample_fs ''lists/fav.json'' sample_resolved) = Inr ()
   \<and> files (snd (ConvertPlaylistFile sample_env sample_fs ''lists/fav.json'' sample_resolved))
        ''lists/fav.json'' = None
   \<and> files (snd (ConvertPlaylistFile sample_env sample_fs ''lists/fav.json'' sample_resolved))
        ''lists/fav.blist'' = Some sample_binary
   \<and> ConvertPlaylistFile sample_env sample_fs ''locked/old.json'' sample_resolved
        = (Inr (), sample_fs)"
proof -
  have p1: "path_join sample_env (path_parse_dir sample_env ''lists/fav.json'')
              (path_parse_name sample_env ''lists/fav.json'' @ ''.blist'') = ''lists/fav.blist''"
    using sample_new_filepath(1) by (simp add: new_filepath_def PLAYLIST_EXTENSION_NAME_def)
  have p2: "path_join sample_env (path_parse_dir sample_env ''locked/old.json'')
              (path_parse_name sample_env ''locked/old.json'' @ ''.blist'') = ''locked/old.blist''"
    using sample_new_filepath(2) by (simp add: new_filepath_def PLAYLIST_EXTENSION_NAME_def)
  have ex: "files sample_fs ''lists/fav.json'' \<noteq> None \<and> \<not> denied sample_fs ''lists/fav.json''"
    by (simp add: sample_fs_def)
  from migration_deletes_after_save [of sample_env "''lists/fav.json''" sample_fs sample_resolved False None] ex
  have a: "fst (ConvertPlaylistFile sample_env sample_fs ''lists/fav.json'' sample_resolved) = Inr ()
     \<and> files (snd (ConvertPlaylistFile sample_env sample_fs ''lists/fav.json'' sample_resolved))
        ''lists/fav.json'' = None
     \<and> files (snd (ConvertPlaylistFile sample_env sample_fs ''lists/fav.json'' sample_resolved))
        ''lists/fav.blist'' = Some sample_binary"
    unfolding Let_def p1 sample_Save_ok by (simp add: unlink_def sample_fs_def)
  from migration_deletes_after_save [of sample_env "''locked/old.json''" sample_fs sample_resolved False None]
  have b: "ConvertPlaylistFile sample_env sample_fs ''locked/old.json'' sample_resolved
        = (Inr (), sample_fs)"
    unfolding Let_def p2 sample_Save_denied by simp
  from a b show ?thesis by simp
qed









subsection \<open>Saving, then loading\<close>

lemma lower_hex_table:
  "\<forall>c \<in> set ''0123456789abcdef''.
     char_toLowerCase c = c
     \<and> (case unhex c of None \<Rightarrow> False | Some d \<Rightarrow> d < 16 \<and> hex_digit d = c)"
  by code_simp

lemma lower_hex_char:
  assumes "c \<in> set ''0123456789abcdef''"
  shows "char_toLowerCase c = c" and "\<exists>d. unhex c = Some d \<and> d < 16 \<and> hex_digit d = c"
  using lower_hex_table assms by (auto split: option.splits)

lemma toLowerCase_lower_hex: "lower_hex s \<Longrightarrow> toLowerCase s = s"
  by (induction s) (simp_all add: lower_hex_def toLowerCase_def lower_hex_char(1))

lemma toString_from_hex:
  "lower_hex s \<Longrightarrow> even (length s) \<Longrightarrow> buffer_toString_hex (Buffer_from_hex s) = s"
proof (induction s rule: Buffer_from_hex.induct)
  case (1 a b rest)
  from "1.prems"(1) have a: "a \<in> set ''0123456789abcdef''" and b: "b \<in> set ''0123456789abcdef''"
    and rest: "lower_hex rest"
    by (simp_all add: lower_hex_def)
  from lower_hex_char(2) [OF a] obtain h where h: "unhex a = Some h" "h < 16" "hex_digit h = a"
    by blast
  from lower_hex_char(2) [OF b] obtain l where l: "unhex b = Some l" "l < 16" "hex_digit l = b"
    by blast
  have "unat (of_nat (16 * h + l) :: 8 word) = (16 * h + l) mod 2 ^ LENGTH(8)"
    by (rule unat_of_nat)
  with h(2) l(2) have u: "unat (of_nat (16 * h + l) :: 8 word) = 16 * h + l"
    by simp
  from "1.prems"(2) have "even (length rest)" by simp
  with "1.IH" [OF h(1) l(1) rest] have "buffer_toString_hex (Buffer_from_hex rest) = rest" .
  with h l show ?case
    by (simp add: u del: of_nat_add of_nat_mult)
qed simp_all


lemma hex_text_table:
  "\<forall>c \<in> set ''0123456789abcdefABCDEF''. char_toLowerCase c \<in> set ''0123456789abcdef''"
  by code_simp

lemma toLowerCase_hex_text: "hex_text s \<Longrightarrow> lower_hex (toLowerCase s)"
  using hex_text_table
  unfolding hex_text_def lower_hex_def toLowerCase_def list_all_iff set_map
  by blast

text \<open>
  For a hash that is hexadecimal text of even length, in either case, \<^verbatim>\<open>Load\<close> asks the
  catalog for the hash in lower case.
\<close>

lemma lookup_text_hex:
  assumes "hex_text h" and "even (length h)"
  shows "lookup_text h = toLowerCase h"
proof -
  have "even (length (toLowerCase h))"
    using assms(2) by (simp add: toLowerCase_def)
  with toLowerCase_hex_text [OF assms(1)] show ?thesis
    by (simp add: lookup_text_def toString_from_hex)
qed

lemma lookup_text_lower_hex:
  "lower_hex h \<Longrightarrow> even (length h) \<Longrightarrow> lookup_text h = h"
  by (simp add: lookup_text_def toLowerCase_lower_hex toString_from_hex)












end
